theory Spec2Isabelle
  imports Main "HOL-Library.Product_Lexorder"
begin

section \<open>Strings and character classes\<close>

text \<open>
  A Python \<open>str\<close> is modelled as a \<open>string\<close> whose characters are the code points below
  256; \<open>length\<close> then counts code points, as \<open>len\<close> does. The classes below are the ones
  \<open>str.isspace\<close> (used by \<open>str.strip\<close> and by \<open>\s\<close>), \<open>\d\<close> and \<open>\w\<close> give on that range.
\<close>

definition code_point :: "char \<Rightarrow> int" where
  "code_point c = of_char c"

definition is_space :: "char \<Rightarrow> bool" where
  "is_space c = (let n = code_point c in
     (9 \<le> n \<and> n \<le> 13) \<or> (28 \<le> n \<and> n \<le> 32) \<or> n = 133 \<or> n = 160)"

definition is_digit :: "char \<Rightarrow> bool" where
  "is_digit c = (let n = code_point c in 48 \<le> n \<and> n \<le> 57)"

definition is_word :: "char \<Rightarrow> bool" where
  "is_word c = (let n = code_point c in
     (48 \<le> n \<and> n \<le> 57) \<or> (65 \<le> n \<and> n \<le> 90) \<or> n = 95 \<or> (97 \<le> n \<and> n \<le> 122) \<or>
     n = 170 \<or> n = 178 \<or> n = 179 \<or> n = 181 \<or> n = 185 \<or> n = 186 \<or>
     (188 \<le> n \<and> n \<le> 190) \<or> (192 \<le> n \<and> n \<le> 214) \<or> (216 \<le> n \<and> n \<le> 246) \<or>
     (248 \<le> n \<and> n \<le> 255))"

text \<open>\<open>str.lower\<close>, character by character (no code point below 256 changes length).\<close>

definition lower_char :: "char \<Rightarrow> char" where
  "lower_char c = (let n = code_point c in
     if (65 \<le> n \<and> n \<le> 90) \<or> (192 \<le> n \<and> n \<le> 222 \<and> n \<noteq> 215)
     then char_of (n + 32) else c)"

definition lower :: "string \<Rightarrow> string" where
  "lower s = map lower_char s"

text \<open>\<open>s.strip()\<close>: whitespace removed at both ends.\<close>

definition strip :: "string \<Rightarrow> string" where
  "strip s = rev (dropWhile is_space (rev (dropWhile is_space s)))"

text \<open>\<open>s.startswith(p)\<close>.\<close>

definition startswith :: "string \<Rightarrow> string \<Rightarrow> bool" where
  "startswith s p = (take (length p) s = p)"

text \<open>\<open>sub in s\<close>: \<open>sub\<close> starts at some position of \<open>s\<close>.\<close>

fun contains :: "string \<Rightarrow> string \<Rightarrow> bool" where
  "contains sub [] = (sub = [])"
| "contains sub (c # cs) = (startswith (c # cs) sub \<or> contains sub cs)"

text \<open>\<open>s.split(',')\<close>: always at least one segment; the commas themselves are dropped.\<close>

fun split_comma :: "string \<Rightarrow> string list" where
  "split_comma [] = [[]]"
| "split_comma (c # cs) =
     (if c = CHR '','' then [] # split_comma cs
      else (case split_comma cs of
              [] \<Rightarrow> [[c]]
            | p # ps \<Rightarrow> (c # p) # ps))"

section \<open>Regular expressions\<close>

text \<open>
  The three patterns of \<open>parse_event\<close> are sequences of items: a literal, an alternation of
  literals, or a greedy repetition of one character class. \<open>re_items\<close> is the backtracking
  matcher of \<open>re\<close> on such a sequence, anchored at the start of its subject: a repetition
  first takes as many characters as it can and gives them back one at a time while the rest
  of the pattern fails, an alternation tries its branches from left to right. The result is
  the text each item consumed, in the order of the items, from which the groups are read.
\<close>

datatype cls = Word | Space | Digit | Comma

fun in_cls :: "cls \<Rightarrow> char \<Rightarrow> bool" where
  "in_cls Word c = is_word c"
| "in_cls Space c = is_space c"
| "in_cls Digit c = is_digit c"
| "in_cls Comma c = (c = CHR '','')"

datatype item = Lit string | Alt "string list" | Rep cls nat "nat option"

fun first_some :: "('a \<Rightarrow> 'b option) \<Rightarrow> 'a list \<Rightarrow> 'b option" where
  "first_some f [] = None"
| "first_some f (x # xs) = (case f x of Some y \<Rightarrow> Some y | None \<Rightarrow> first_some f xs)"

fun re_items :: "item list \<Rightarrow> string \<Rightarrow> string list option" where
  "re_items [] s = Some []"
| "re_items (Lit l # its) s =
     (if startswith s l then map_option ((#) l) (re_items its (drop (length l) s)) else None)"
| "re_items (Alt ls # its) s =
     first_some (\<lambda>l. if startswith s l
                      then map_option ((#) l) (re_items its (drop (length l) s)) else None) ls"
| "re_items (Rep c lo hi # its) s =
     (let n = length (takeWhile (in_cls c) s);
          top = (case hi of None \<Rightarrow> n | Some h \<Rightarrow> min h n)
      in first_some (\<lambda>k. map_option ((#) (take k s)) (re_items its (drop k s)))
           (rev [lo..<Suc top]))"

text \<open>\<open>re.match\<close> is anchored at position 0; \<open>re.search\<close> takes the leftmost start that matches.\<close>

definition re_match :: "item list \<Rightarrow> string \<Rightarrow> string list option" where
  "re_match its s = re_items its s"

fun re_search :: "item list \<Rightarrow> string \<Rightarrow> string list option" where
  "re_search its [] = re_items its []"
| "re_search its (c # cs) =
     (case re_items its (c # cs) of Some ps \<Rightarrow> Some ps | None \<Rightarrow> re_search its cs)"

text \<open>\<open>(Monday|Tuesday|Wednesday|Thursday|Friday|Saturday|Sunday)\<close>\<close>

definition weekday_re :: "item list" where
  "weekday_re = [Alt [''Monday'', ''Tuesday'', ''Wednesday'', ''Thursday'', ''Friday'',
                      ''Saturday'', ''Sunday'']]"

text \<open>\<open>(\w+day),?\s+(\w+)\s+(\d+),?\s+(\d{4})\<close>: group 2 is item 4, group 3 is item 6,
  group 4 is item 9.\<close>

definition date_re :: "item list" where
  "date_re = [Rep Word 1 None, Lit ''day'', Rep Comma 0 (Some 1), Rep Space 1 None,
              Rep Word 1 None, Rep Space 1 None,
              Rep Digit 1 None, Rep Comma 0 (Some 1), Rep Space 1 None,
              Rep Digit 4 (Some 4)]"

text \<open>\<open>(\d{1,2}):(\d{2})\s*(AM|PM)\s+to\s+(\d{1,2}):(\d{2})\s*(AM|PM)\<close>: the six groups are
  items 0, 2, 4, 8, 10 and 12.\<close>

definition time_re :: "item list" where
  "time_re = [Rep Digit 1 (Some 2), Lit '':'', Rep Digit 2 (Some 2), Rep Space 0 None,
              Alt [''AM'', ''PM''], Rep Space 1 None, Lit ''to'', Rep Space 1 None,
              Rep Digit 1 (Some 2), Lit '':'', Rep Digit 2 (Some 2), Rep Space 0 None,
              Alt [''AM'', ''PM'']]"

section \<open>Exceptions, integers and datetimes\<close>

datatype exn = ValueError | AttributeError | OverflowError | RuntimeError | OSError

text \<open>
  \<open>int(s)\<close> on the arguments \<open>parse_event\<close> passes, which are \<open>\d\<close> groups: the decimal value,
  or \<open>ValueError\<close> beyond the interpreter's limit of 4300 digits (and on a string that is
  not a run of digits).
\<close>

definition digit_val :: "char \<Rightarrow> int" where
  "digit_val c = code_point c - 48"

definition py_int :: "string \<Rightarrow> exn + int" where
  "py_int s =
     (if s = [] \<or> \<not> list_all is_digit s then Inl ValueError
      else if drop 4300 s \<noteq> [] then Inl ValueError
      else Inr (foldl (\<lambda>a c. 10 * a + digit_val c) 0 s))"

record datetime =
  year :: int
  month :: int
  day :: int
  hour :: int
  minute :: int
  second :: int
  microsecond :: int

definition INT_MAX :: int where
  "INT_MAX = 2147483647"

definition is_leap :: "int \<Rightarrow> bool" where
  "is_leap y = (y mod 4 = 0 \<and> (y mod 100 \<noteq> 0 \<or> y mod 400 = 0))"

definition days_in_month :: "int \<Rightarrow> int \<Rightarrow> int" where
  "days_in_month y m =
     (if m = 2 then (if is_leap y then 29 else 28)
      else if m = 4 \<or> m = 6 \<or> m = 9 \<or> m = 11 then 30 else 31)"

text \<open>
  The constructor \<open>datetime(year, month, day, hour, minute)\<close>: each argument is first
  converted to a C \<open>int\<close> (\<open>OverflowError\<close> when it does not fit), then the fields are
  range-checked (\<open>ValueError\<close>). Seconds and microseconds default to 0.
\<close>

definition datetime_new :: "int \<Rightarrow> int \<Rightarrow> int \<Rightarrow> int \<Rightarrow> int \<Rightarrow> exn + datetime" where
  "datetime_new y m d H M =
     (if y > INT_MAX \<or> m > INT_MAX \<or> d > INT_MAX \<or> H > INT_MAX \<or> M > INT_MAX
      then Inl OverflowError
      else if y < 1 \<or> y > 9999 then Inl ValueError
      else if m < 1 \<or> m > 12 then Inl ValueError
      else if d < 1 \<or> d > days_in_month y m then Inl ValueError
      else if H < 0 \<or> H > 23 then Inl ValueError
      else if M < 0 \<or> M > 59 then Inl ValueError
      else Inr \<lparr>year = y, month = m, day = d, hour = H, minute = M,
                second = 0, microsecond = 0\<rparr>)"

text \<open>Datetimes compare field by field, the year first.\<close>

definition dt_key :: "datetime \<Rightarrow> int \<times> int \<times> int \<times> int \<times> int \<times> int \<times> int" where
  "dt_key t = (year t, month t, day t, hour t, minute t, second t, microsecond t)"

definition dt_le :: "datetime \<Rightarrow> datetime \<Rightarrow> bool" where
  "dt_le a b = (dt_key a \<le> dt_key b)"

section \<open>The event normalizer: \<open>parse_event\<close>\<close>

record event =
  title :: string
  start_dt :: datetime
  end_dt :: datetime
  all_day :: bool
  raw :: string

definition is_time_part :: "string \<Rightarrow> bool" where
  "is_time_part part = (contains '' to '' part \<and> (contains ''AM'' part \<or> contains ''PM'' part))"

definition is_all_day_part :: "string \<Rightarrow> bool" where
  "is_all_day_part part = contains ''all day'' (lower part)"

definition is_weekday_part :: "string \<Rightarrow> bool" where
  "is_weekday_part part = (re_match weekday_re part \<noteq> None)"

text \<open>
  The loop over \<open>parts[1:]\<close>. Its state is \<open>time_part\<close> and \<open>all_day\<close>; \<open>rest\<close> holds the
  segments after the current one, so \<open>i + 2 < len(parts)\<close> says that \<open>rest\<close> has two
  segments or more and \<open>i + 1 < len(parts)\<close> that it has one. The result is the state at
  the end of the loop together with \<open>date_part\<close>.
\<close>

fun scan :: "string list \<Rightarrow> string option \<Rightarrow> bool \<Rightarrow> string option \<times> bool \<times> string option" where
  "scan [] time_part ad = (time_part, ad, None)"
| "scan (part # rest) time_part ad =
     (if is_time_part part then scan rest (Some part) ad
      else if is_all_day_part part then scan rest time_part True
      else if is_weekday_part part then
        (time_part, ad,
         Some (case rest of
                 a # b # _ \<Rightarrow> part @ '', '' @ a @ '', '' @ b
               | [a] \<Rightarrow> part @ '', '' @ a
               | [] \<Rightarrow> part))
      else scan rest time_part ad)"

text \<open>The segments at which the loop takes its third branch and stops.\<close>

definition is_date_part :: "string \<Rightarrow> bool" where
  "is_date_part part =
     (\<not> is_time_part part \<and> \<not> is_all_day_part part \<and> is_weekday_part part)"

definition month_map :: "(string \<times> int) list" where
  "month_map =
     [(''January'', 1), (''February'', 2), (''March'', 3), (''April'', 4),
      (''May'', 5), (''June'', 6), (''July'', 7), (''August'', 8),
      (''September'', 9), (''October'', 10), (''November'', 11), (''December'', 12)]"

text \<open>The 12-hour to 24-hour step applied to each of the two hours.\<close>

definition to_24h :: "int \<Rightarrow> string \<Rightarrow> int" where
  "to_24h h ampm =
     (if ampm = ''PM'' \<and> h \<noteq> 12 then h + 12
      else if ampm = ''AM'' \<and> h = 12 then 0
      else h)"

text \<open>The branch \<open>elif time_part:\<close> of the \<open>try\<close> block.\<close>

definition timed_event ::
  "string \<Rightarrow> string \<Rightarrow> string \<Rightarrow> int \<Rightarrow> int \<Rightarrow> int \<Rightarrow> exn + event option" where
  "timed_event raw0 ttl tp y m d =
     (case re_match time_re tp of
        None \<Rightarrow> Inr None
      | Some g \<Rightarrow>
         (case py_int (g ! 0) of Inl e \<Rightarrow> Inl e | Inr start_hour \<Rightarrow>
         (case py_int (g ! 2) of Inl e \<Rightarrow> Inl e | Inr start_min \<Rightarrow>
         (case py_int (g ! 8) of Inl e \<Rightarrow> Inl e | Inr end_hour \<Rightarrow>
         (case py_int (g ! 10) of Inl e \<Rightarrow> Inl e | Inr end_min \<Rightarrow>
         (case datetime_new y m d (to_24h start_hour (g ! 4)) start_min of
            Inl e \<Rightarrow> Inl e | Inr s \<Rightarrow>
         (case datetime_new y m d (to_24h end_hour (g ! 12)) end_min of
            Inl e \<Rightarrow> Inl e | Inr f \<Rightarrow>
          Inr (Some \<lparr>title = ttl, start_dt = s, end_dt = f, all_day = False,
                      raw = raw0\<rparr>))))))))"

text \<open>The body of the \<open>try\<close> block; \<open>Inl\<close> is an exception raised inside it.\<close>

definition try_body ::
  "string \<Rightarrow> string \<Rightarrow> string option \<Rightarrow> bool \<Rightarrow> string \<Rightarrow> exn + event option" where
  "try_body raw0 ttl time_part ad date_part =
     (case re_search date_re date_part of
        None \<Rightarrow> Inr None
      | Some g \<Rightarrow>
         (case py_int (g ! 6) of Inl e \<Rightarrow> Inl e | Inr d \<Rightarrow>
         (case py_int (g ! 9) of Inl e \<Rightarrow> Inl e | Inr y \<Rightarrow>
          (let m = (case map_of month_map (g ! 4) of Some k \<Rightarrow> k | None \<Rightarrow> 1) in
           if ad then
             (case datetime_new y m d 0 0 of Inl e \<Rightarrow> Inl e | Inr s \<Rightarrow>
             (case datetime_new y m d 23 59 of Inl e \<Rightarrow> Inl e | Inr f \<Rightarrow>
              Inr (Some \<lparr>title = ttl, start_dt = s, end_dt = f, all_day = ad,
                          raw = raw0\<rparr>)))
           else
             (case time_part of
                None \<Rightarrow> Inr None
              | Some tp \<Rightarrow>
                  if tp = [] then Inr None else timed_event raw0 ttl tp y m d)))))"

text \<open>
  \<open>parse_event\<close>: \<open>Inr None\<close> is the rejection \<open>return None\<close>, \<open>Inr (Some e)\<close> an accepted
  event, and \<open>Inl x\<close> an exception that leaves the function: the handler catches
  \<open>ValueError\<close> and \<open>AttributeError\<close> and nothing else.
\<close>

definition parse_event :: "string \<Rightarrow> exn + event option" where
  "parse_event raw0 =
     (let parts = map strip (split_comma raw0) in
      if length parts < 3 then Inr None
      else
        let ttl = hd parts in
        if startswith ttl ''calendar view'' \<or> startswith ttl ''current time'' then Inr None
        else
          (case scan (tl parts) None False of
             (time_part, ad, date_part) \<Rightarrow>
               (case date_part of
                  None \<Rightarrow> Inr None
                | Some dp \<Rightarrow>
                    if dp = [] then Inr None
                    else
                      (case try_body raw0 ttl time_part ad dp of
                         Inl x \<Rightarrow> if x = ValueError \<or> x = AttributeError then Inr None else Inl x
                       | Inr r \<Rightarrow> Inr r))))"

section \<open>The raw item collector\<close>

text \<open>
  The last loop of \<open>get_calendar_events\<close> (\<open># Parse and deduplicate events\<close>). An element of
  \<open>events_data\<close> is a dict, whose \<open>'raw'\<close> entry may be missing, or something else, which the
  \<open>isinstance\<close> test skips. The loop state is the set \<open>seen\<close> and the list \<open>events\<close>, both
  empty when the loop starts.
\<close>

datatype scraped = Dict "string option" | NotDict

fun deduplicate_loop :: "scraped list \<Rightarrow> string set \<Rightarrow> string list \<Rightarrow> string list" where
  "deduplicate_loop [] seen events = events"
| "deduplicate_loop (NotDict # rest) seen events = deduplicate_loop rest seen events"
| "deduplicate_loop (Dict entry # rest) seen events =
     (let r = (case entry of Some s \<Rightarrow> s | None \<Rightarrow> []) in
      if r \<noteq> [] \<and> r \<notin> seen \<and> length r > 5
      then deduplicate_loop rest (insert r seen) (events @ [r])
      else deduplicate_loop rest seen events)"

definition deduplicate :: "scraped list \<Rightarrow> string list" where
  "deduplicate events_data = deduplicate_loop events_data {} []"

text \<open>The fragments the loop reads, in order: \<open>item.get('raw', '')\<close> of every dict.\<close>

fun raw_values :: "scraped list \<Rightarrow> string list" where
  "raw_values [] = []"
| "raw_values (NotDict # rest) = raw_values rest"
| "raw_values (Dict entry # rest) = (case entry of Some s \<Rightarrow> s | None \<Rightarrow> []) # raw_values rest"

text \<open>The position at which \<open>x\<close> first occurs in \<open>xs\<close> (the length of \<open>xs\<close> if it never does).\<close>

definition first_index :: "'a \<Rightarrow> 'a list \<Rightarrow> nat" where
  "first_index x xs = length (takeWhile (\<lambda>y. y \<noteq> x) xs)"

section \<open>Formatting\<close>

text \<open>Decimal digits of a natural number, and zero padding to a width (\<open>%02d\<close>, \<open>%04d\<close>).\<close>

definition digit_char :: "nat \<Rightarrow> char" where
  "digit_char n = char_of (48 + n)"

fun dec :: "nat \<Rightarrow> string" where
  "dec n = (if n < 10 then [digit_char n] else dec (n div 10) @ [digit_char (n mod 10)])"

declare dec.simps [simp del]

definition pad :: "nat \<Rightarrow> int \<Rightarrow> string" where
  "pad w n = (let ds = dec (nat n) in replicate (w - length ds) (CHR ''0'') @ ds)"

text \<open>\<open>sep.join(lines)\<close>\<close>

fun join :: "string \<Rightarrow> string list \<Rightarrow> string" where
  "join sep [] = []"
| "join sep [x] = x"
| "join sep (x # y # ys) = x @ sep @ join sep (y # ys)"

text \<open>\<open>s.replace(old, new)\<close> for a non-empty \<open>old\<close>: every occurrence, from left to right.\<close>

function replace :: "string \<Rightarrow> string \<Rightarrow> string \<Rightarrow> string" where
  "replace old new [] = []"
| "replace old new (c # cs) =
     (if old \<noteq> [] \<and> startswith (c # cs) old
      then new @ replace old new (drop (length old) (c # cs))
      else c # replace old new cs)"
  by pat_completeness auto
termination
  by (relation "measure (\<lambda>(old, new, s). length s)") (auto simp: startswith_def)

text \<open>
  \<open>strftime\<close> with the formats \<open>%Y%m%d\<close> and \<open>%Y%m%dT%H%M%S\<close>. The C library prints \<open>%Y\<close>:
  on Linux (glibc) it is the year without padding, so a year below 1000 has fewer than
  four digits; the other fields are zero-padded to two digits.
\<close>

definition strftime_date :: "datetime \<Rightarrow> string" where
  "strftime_date t = dec (nat (year t)) @ pad 2 (month t) @ pad 2 (day t)"

definition strftime_time :: "datetime \<Rightarrow> string" where
  "strftime_time t = pad 2 (hour t) @ pad 2 (minute t) @ pad 2 (second t)"

text \<open>
  \<open>isoformat\<close> of a naive datetime with separator \<open>sep\<close> (\<open>str(t)\<close> is \<open>isoformat\<close> with a
  blank): the year is zero-padded to four digits, the other fields to two, and the
  microseconds are printed, on six digits, only when they are not 0.
\<close>

definition isoformat_sep :: "char \<Rightarrow> datetime \<Rightarrow> string" where
  "isoformat_sep sep t =
     pad 4 (year t) @ ''-'' @ pad 2 (month t) @ ''-'' @ pad 2 (day t) @ [sep] @
     pad 2 (hour t) @ '':'' @ pad 2 (minute t) @ '':'' @ pad 2 (second t) @
     (if microsecond t \<noteq> 0 then ''.'' @ pad 6 (microsecond t) else [])"


definition str_datetime :: "datetime \<Rightarrow> string" where
  "str_datetime t = isoformat_sep (CHR '' '') t"

section \<open>The iCal serializer: \<open>events_to_ical\<close>\<close>

text \<open>
  Two things come from outside: \<open>md5\<close>, standing for
  \<open>hashlib.md5(text.encode()).hexdigest()\<close>, and the clock: \<open>clock k\<close> is what the \<open>k\<close>-th call
  of \<open>datetime.now(timezone.utc)\<close> returns, one call for each event.
\<close>

definition CRLF :: string where
  "CRLF = [CHR 0x0D, CHR 0x0A]"

definition uid_line :: "(string \<Rightarrow> string) \<Rightarrow> event \<Rightarrow> string" where
  "uid_line md5 e = ''UID:'' @ md5 (title e @ str_datetime (start_dt e)) @ ''@calscripts''"

definition dtstamp_line :: "datetime \<Rightarrow> string" where
  "dtstamp_line now = ''DTSTAMP:'' @ strftime_date now @ ''T'' @ strftime_time now @ ''Z''"

definition dtstart_line :: "event \<Rightarrow> string" where
  "dtstart_line e =
     (if all_day e then ''DTSTART;VALUE=DATE:'' @ strftime_date (start_dt e)
      else ''DTSTART:'' @ strftime_date (start_dt e) @ ''T'' @ strftime_time (start_dt e))"

definition dtend_line :: "event \<Rightarrow> string" where
  "dtend_line e =
     (if all_day e then ''DTEND;VALUE=DATE:'' @ strftime_date (end_dt e)
      else ''DTEND:'' @ strftime_date (end_dt e) @ ''T'' @ strftime_time (end_dt e))"

definition summary_line :: "event \<Rightarrow> string" where
  "summary_line e =
     ''SUMMARY:'' @
       replace '';'' [CHR 0x5C, CHR '';'']
         (replace '','' [CHR 0x5C, CHR '','']
            (replace [CHR 0x5C] [CHR 0x5C, CHR 0x5C] (title e)))"

text \<open>The lines one pass of the loop body appends.\<close>

definition vevent :: "(string \<Rightarrow> string) \<Rightarrow> datetime \<Rightarrow> event \<Rightarrow> string list" where
  "vevent md5 now e =
     [''BEGIN:VEVENT'', uid_line md5 e, dtstamp_line now, dtstart_line e, dtend_line e,
      summary_line e, ''END:VEVENT'']"

fun vevents :: "(string \<Rightarrow> string) \<Rightarrow> (nat \<Rightarrow> datetime) \<Rightarrow> nat \<Rightarrow> event list \<Rightarrow> string list" where
  "vevents md5 clock k [] = []"
| "vevents md5 clock k (e # es) = vevent md5 (clock k) e @ vevents md5 clock (Suc k) es"

definition ical_lines :: "(string \<Rightarrow> string) \<Rightarrow> (nat \<Rightarrow> datetime) \<Rightarrow> event list \<Rightarrow> string list" where
  "ical_lines md5 clock events =
     [''BEGIN:VCALENDAR'', ''VERSION:2.0'', ''PRODID:-//calscripts//outlook_web//EN'',
      ''CALSCALE:GREGORIAN'', ''METHOD:PUBLISH''] @
     vevents md5 clock 0 events @ [''END:VCALENDAR'']"

definition events_to_ical :: "(string \<Rightarrow> string) \<Rightarrow> (nat \<Rightarrow> datetime) \<Rightarrow> event list \<Rightarrow> string" where
  "events_to_ical md5 clock events = join CRLF (ical_lines md5 clock events)"

section \<open>The JSON serializer: \<open>events_to_json\<close>\<close>

text \<open>The values \<open>events_to_json\<close> hands to \<open>json.dumps\<close>: \<open>None\<close>, booleans, integers,
  strings, lists, and dicts with string keys.\<close>

datatype json = JNull | JBool bool | JInt int | JStr string | JArr "json list"
  | JObj "(string \<times> json) list"










section \<open>Decoding the JSON text: \<open>json.loads\<close>\<close>















fun weight :: "json \<Rightarrow> nat" where
  "weight (JArr xs) = Suc (sum_list (map (\<lambda>x. Suc (weight x)) xs))"
| "weight (JObj ps) = Suc (sum_list (map (\<lambda>p. Suc (weight (snd p))) ps))"
| "weight v = 1"



section \<open>Secure delivery: \<open>post_to_url\<close>\<close>











section \<open>Properties of \<open>parse_event\<close>\<close>

lemma datetime_new_Inr:
  "datetime_new y m d H M = Inr t \<Longrightarrow>
     t = \<lparr>year = y, month = m, day = d, hour = H, minute = M, second = 0, microsecond = 0\<rparr>"
  by (simp add: datetime_new_def split: if_splits)

lemma timed_event_Some:
  assumes "timed_event r ttl tp y m d = Inr (Some e)"
  shows "\<exists>H M H' M'. e = \<lparr>title = ttl,
           start_dt = \<lparr>year = y, month = m, day = d, hour = H, minute = M,
                        second = 0, microsecond = 0\<rparr>,
           end_dt = \<lparr>year = y, month = m, day = d, hour = H', minute = M',
                      second = 0, microsecond = 0\<rparr>,
           all_day = False, raw = r\<rparr>"
  using assms unfolding timed_event_def
  by (auto split: option.splits sum.splits dest!: datetime_new_Inr)

lemma try_body_Some:
  assumes "try_body r ttl tp ad dp = Inr (Some e)"
  shows "\<exists>y m d H M H' M'. e = \<lparr>title = ttl,
           start_dt = \<lparr>year = y, month = m, day = d, hour = H, minute = M,
                        second = 0, microsecond = 0\<rparr>,
           end_dt = \<lparr>year = y, month = m, day = d, hour = H', minute = M',
                      second = 0, microsecond = 0\<rparr>,
           all_day = ad, raw = r\<rparr> \<and> (ad \<longrightarrow> H = 0 \<and> M = 0 \<and> H' = 23 \<and> M' = 59)"
  using assms unfolding try_body_def Let_def
  by (auto split: option.splits sum.splits if_splits dest!: datetime_new_Inr timed_event_Some)

lemma split_comma_nonempty: "split_comma s \<noteq> []"
  by (induction s) (auto split: list.splits)

lemma hd_split_comma: "hd (split_comma s) = takeWhile (\<lambda>c. c \<noteq> CHR '','') s"
  using split_comma_nonempty by (induction s) (auto split: list.splits)

lemma parse_event_Some:
  assumes "parse_event r = Inr (Some e)"
  shows "\<exists>tp ad dp. try_body r (strip (hd (split_comma r))) tp ad dp = Inr (Some e) \<and>
           \<not> startswith (strip (hd (split_comma r))) ''calendar view'' \<and>
           \<not> startswith (strip (hd (split_comma r))) ''current time''"
  using assms unfolding parse_event_def Let_def
  by (auto split: option.splits sum.splits if_splits prod.splits
           simp: hd_map split_comma_nonempty)

subsection \<open>C1: start and end of an accepted event\<close>

text \<open>
  C1, as stated, fails: a timed range that crosses midnight is accepted with both times on
  the day of the date marker, so its start is later than its end.
\<close>

theorem parse_event_midnight_counterexample:
  "parse_event ''Late, 11:00 PM to 1:00 AM, Tuesday, February 3, 2026'' =
     Inr (Some \<lparr>title = ''Late'',
       start_dt = \<lparr>year = 2026, month = 2, day = 3, hour = 23, minute = 0,
                    second = 0, microsecond = 0\<rparr>,
       end_dt = \<lparr>year = 2026, month = 2, day = 3, hour = 1, minute = 0,
                  second = 0, microsecond = 0\<rparr>,
       all_day = False,
       raw = ''Late, 11:00 PM to 1:00 AM, Tuesday, February 3, 2026''\<rparr>) \<and>
   \<not> dt_le \<lparr>year = 2026, month = 2, day = 3, hour = 23, minute = 0,
              second = 0, microsecond = 0\<rparr>
            \<lparr>year = 2026, month = 2, day = 3, hour = 1, minute = 0,
              second = 0, microsecond = 0\<rparr>"
  by code_simp

text \<open>
  C1 (amended): for every event accepted by \<open>parse_event\<close>, if \<open>all_day\<close> is true then start
  is the event's day at 00:00 and end is the same day at 23:59, so start \<open>\<le>\<close> end; if
  \<open>all_day\<close> is false then start \<open>\<le>\<close> end holds exactly when the 24-hour start time (hour,
  minute) is not later than the 24-hour end time.
\<close>

theorem parse_event_times:
  assumes "parse_event r = Inr (Some e)"
  shows "(all_day e \<longrightarrow>
            year (start_dt e) = year (end_dt e) \<and> month (start_dt e) = month (end_dt e) \<and>
            day (start_dt e) = day (end_dt e) \<and>
            hour (start_dt e) = 0 \<and> minute (start_dt e) = 0 \<and>
            second (start_dt e) = 0 \<and> microsecond (start_dt e) = 0 \<and>
            hour (end_dt e) = 23 \<and> minute (end_dt e) = 59 \<and>
            second (end_dt e) = 0 \<and> microsecond (end_dt e) = 0 \<and>
            dt_le (start_dt e) (end_dt e)) \<and>
         (\<not> all_day e \<longrightarrow>
            (dt_le (start_dt e) (end_dt e) \<longleftrightarrow>
               (hour (start_dt e), minute (start_dt e))
                 \<le> (hour (end_dt e), minute (end_dt e))))"
proof -
  from parse_event_Some [OF assms] obtain tp ad dp ttl where
    b: "try_body r ttl tp ad dp = Inr (Some e)" by blast
  from try_body_Some [OF b] show ?thesis by (auto simp: dt_le_def dt_key_def)
qed

theorem parse_event_times_witness:
  "(let e = \<lparr>title = ''Offsite'',
       start_dt = \<lparr>year = 2026, month = 2, day = 3, hour = 0, minute = 0,
                    second = 0, microsecond = 0\<rparr>,
       end_dt = \<lparr>year = 2026, month = 2, day = 3, hour = 23, minute = 59,
                  second = 0, microsecond = 0\<rparr>,
       all_day = True,
       raw = ''Offsite, all day event, Tuesday, February 3, 2026''\<rparr>
    in parse_event ''Offsite, all day event, Tuesday, February 3, 2026'' = Inr (Some e) \<and>
       all_day e \<and> dt_le (start_dt e) (end_dt e) \<and>
       hour (start_dt e) = 0 \<and> minute (start_dt e) = 0 \<and>
       hour (end_dt e) = 23 \<and> minute (end_dt e) = 59)"
proof -
  have h: "parse_event ''Offsite, all day event, Tuesday, February 3, 2026'' =
     Inr (Some \<lparr>title = ''Offsite'',
       start_dt = \<lparr>year = 2026, month = 2, day = 3, hour = 0, minute = 0,
                    second = 0, microsecond = 0\<rparr>,
       end_dt = \<lparr>year = 2026, month = 2, day = 3, hour = 23, minute = 59,
                  second = 0, microsecond = 0\<rparr>,
       all_day = True,
       raw = ''Offsite, all day event, Tuesday, February 3, 2026''\<rparr>)"
    by code_simp
  show ?thesis unfolding Let_def using h parse_event_times [OF h] by simp
qed

subsection \<open>C2: the first concrete scenario\<close>

text \<open>
  C2: \<open>parse_event\<close> accepts \<open>"Team Sync, 10:00 AM to 11:00 AM, Tuesday, February 3, 2026,
  extra"\<close> with title \<open>"Team Sync"\<close>, start 2026-02-03 10:00, end 2026-02-03 11:00 and
  \<open>all_day\<close> false; the hour conversion sends 12 AM to 0, keeps 12 PM, adds 12 to the hours
  1 to 11 when PM and leaves them unchanged when AM.
\<close>

theorem parse_event_team_sync:
  "parse_event ''Team Sync, 10:00 AM to 11:00 AM, Tuesday, February 3, 2026, extra'' =
     Inr (Some \<lparr>title = ''Team Sync'',
       start_dt = \<lparr>year = 2026, month = 2, day = 3, hour = 10, minute = 0,
                    second = 0, microsecond = 0\<rparr>,
       end_dt = \<lparr>year = 2026, month = 2, day = 3, hour = 11, minute = 0,
                  second = 0, microsecond = 0\<rparr>,
       all_day = False,
       raw = ''Team Sync, 10:00 AM to 11:00 AM, Tuesday, February 3, 2026, extra''\<rparr>) \<and>
   to_24h 12 ''AM'' = 0 \<and> to_24h 12 ''PM'' = 12 \<and>
   map (\<lambda>h. to_24h h ''PM'') [1, 2, 3, 4, 5, 6, 7, 8, 9, 10, 11] =
     [13, 14, 15, 16, 17, 18, 19, 20, 21, 22, 23] \<and>
   map (\<lambda>h. to_24h h ''AM'') [1, 2, 3, 4, 5, 6, 7, 8, 9, 10, 11] =
     [1, 2, 3, 4, 5, 6, 7, 8, 9, 10, 11]"
  by code_simp

subsection \<open>C5: exceptions that leave \<open>parse_event\<close>\<close>

text \<open>
  C5: \<open>parse_event\<close> never raises. The handler of the \<open>try\<close> block catches \<open>ValueError\<close> and
  \<open>AttributeError\<close> only; a day of the month that does not fit a C \<open>int\<close> makes the
  \<open>datetime\<close> constructor raise \<open>OverflowError\<close>, which leaves the function.
\<close>

theorem parse_event_raises_overflow:
  "parse_event ''X, all day, Monday, January 99999999999, 2026'' = Inl OverflowError"
  by code_simp

subsection \<open>C6: the title of an accepted event\<close>

text \<open>
  C6, as stated, fails: a source text that begins with a comma is accepted with an empty
  title.
\<close>

theorem parse_event_empty_title_counterexample:
  "parse_event '', all day, Monday, January 5, 2026'' =
     Inr (Some \<lparr>title = [],
       start_dt = \<lparr>year = 2026, month = 1, day = 5, hour = 0, minute = 0,
                    second = 0, microsecond = 0\<rparr>,
       end_dt = \<lparr>year = 2026, month = 1, day = 5, hour = 23, minute = 59,
                  second = 0, microsecond = 0\<rparr>,
       all_day = True,
       raw = '', all day, Monday, January 5, 2026''\<rparr>)"
  by code_simp

text \<open>
  C6 (amended): for every event accepted by \<open>parse_event\<close>, the title is the text before the
  first comma of the source text with whitespace trimmed at both ends (it may be empty),
  and it starts with neither \<open>"calendar view"\<close> nor \<open>"current time"\<close>.
\<close>

theorem parse_event_title:
  assumes "parse_event r = Inr (Some e)"
  shows "title e = strip (takeWhile (\<lambda>c. c \<noteq> CHR '','') r) \<and>
         \<not> startswith (title e) ''calendar view'' \<and>
         \<not> startswith (title e) ''current time''"
proof -
  from parse_event_Some [OF assms] obtain tp ad dp where
    b: "try_body r (strip (hd (split_comma r))) tp ad dp = Inr (Some e)"
    and n: "\<not> startswith (strip (hd (split_comma r))) ''calendar view''"
           "\<not> startswith (strip (hd (split_comma r))) ''current time''"
    by blast
  from try_body_Some [OF b] have "title e = strip (hd (split_comma r))" by auto
  with n show ?thesis by (simp add: hd_split_comma)
qed

theorem parse_event_title_witness:
  "(let e = \<lparr>title = ''Standup'',
       start_dt = \<lparr>year = 2026, month = 1, day = 5, hour = 9, minute = 0,
                    second = 0, microsecond = 0\<rparr>,
       end_dt = \<lparr>year = 2026, month = 1, day = 5, hour = 9, minute = 15,
                  second = 0, microsecond = 0\<rparr>,
       all_day = False,
       raw = '' Standup , 9:00 AM to 9:15 AM, Monday, January 5, 2026''\<rparr>
    in parse_event '' Standup , 9:00 AM to 9:15 AM, Monday, January 5, 2026'' =
         Inr (Some e) \<and>
       title e = strip (takeWhile (\<lambda>c. c \<noteq> CHR '','')
                   '' Standup , 9:00 AM to 9:15 AM, Monday, January 5, 2026'') \<and>
       \<not> startswith (title e) ''calendar view'' \<and>
       \<not> startswith (title e) ''current time'')"
proof -
  have h: "parse_event '' Standup , 9:00 AM to 9:15 AM, Monday, January 5, 2026'' =
     Inr (Some \<lparr>title = ''Standup'',
       start_dt = \<lparr>year = 2026, month = 1, day = 5, hour = 9, minute = 0,
                    second = 0, microsecond = 0\<rparr>,
       end_dt = \<lparr>year = 2026, month = 1, day = 5, hour = 9, minute = 15,
                  second = 0, microsecond = 0\<rparr>,
       all_day = False,
       raw = '' Standup , 9:00 AM to 9:15 AM, Monday, January 5, 2026''\<rparr>)"
    by code_simp
  show ?thesis unfolding Let_def using h parse_event_title [OF h] by blast
qed

subsection \<open>C10: a timed event stays on one day\<close>

text \<open>
  C10: for every timed (not all-day) event accepted by \<open>parse_event\<close>, start and end have
  the same year, month and day: the range is never rolled over into the following day.
\<close>

theorem parse_event_same_date:
  assumes "parse_event r = Inr (Some e)" and "\<not> all_day e"
  shows "year (start_dt e) = year (end_dt e) \<and> month (start_dt e) = month (end_dt e) \<and>
         day (start_dt e) = day (end_dt e)"
proof -
  from parse_event_Some [OF assms(1)] obtain tp ad dp ttl where
    b: "try_body r ttl tp ad dp = Inr (Some e)" by blast
  from try_body_Some [OF b] show ?thesis by auto
qed

theorem parse_event_same_date_witness:
  "(let e = \<lparr>title = ''Night shift'',
       start_dt = \<lparr>year = 2026, month = 3, day = 6, hour = 22, minute = 30,
                    second = 0, microsecond = 0\<rparr>,
       end_dt = \<lparr>year = 2026, month = 3, day = 6, hour = 2, minute = 0,
                  second = 0, microsecond = 0\<rparr>,
       all_day = False,
       raw = ''Night shift, 10:30 PM to 2:00 AM, Friday, March 6, 2026''\<rparr>
    in parse_event ''Night shift, 10:30 PM to 2:00 AM, Friday, March 6, 2026'' =
         Inr (Some e) \<and>
       \<not> all_day e \<and>
       year (start_dt e) = year (end_dt e) \<and> month (start_dt e) = month (end_dt e) \<and>
       day (start_dt e) = day (end_dt e))"
proof -
  have h: "parse_event ''Night shift, 10:30 PM to 2:00 AM, Friday, March 6, 2026'' =
     Inr (Some \<lparr>title = ''Night shift'',
       start_dt = \<lparr>year = 2026, month = 3, day = 6, hour = 22, minute = 30,
                    second = 0, microsecond = 0\<rparr>,
       end_dt = \<lparr>year = 2026, month = 3, day = 6, hour = 2, minute = 0,
                  second = 0, microsecond = 0\<rparr>,
       all_day = False,
       raw = ''Night shift, 10:30 PM to 2:00 AM, Friday, March 6, 2026''\<rparr>)"
    by code_simp
  have n: "\<not> all_day \<lparr>title = ''Night shift'',
       start_dt = \<lparr>year = 2026, month = 3, day = 6, hour = 22, minute = 30,
                    second = 0, microsecond = 0\<rparr>,
       end_dt = \<lparr>year = 2026, month = 3, day = 6, hour = 2, minute = 0,
                  second = 0, microsecond = 0\<rparr>,
       all_day = False,
       raw = ''Night shift, 10:30 PM to 2:00 AM, Friday, March 6, 2026''\<rparr>"
    by simp
  show ?thesis unfolding Let_def using h n parse_event_same_date [OF h n] by blast
qed

subsection \<open>C4: which segment the scan keeps\<close>

text \<open>
  C4, as stated, fails: of two time-range segments before the date marker the scan keeps
  the second, since each one overwrites \<open>time_part\<close>.
\<close>

theorem scan_first_time_part_counterexample:
  "scan [''1:00 PM to 2:00 PM'', ''3:00 PM to 4:00 PM'', ''Monday'', ''January 5'', ''2026'']
        None False =
     (Some ''3:00 PM to 4:00 PM'', False, Some ''Monday, January 5, 2026'') \<and>
   parse_event ''T, 1:00 PM to 2:00 PM, 3:00 PM to 4:00 PM, Monday, January 5, 2026'' =
     Inr (Some \<lparr>title = ''T'',
       start_dt = \<lparr>year = 2026, month = 1, day = 5, hour = 15, minute = 0,
                    second = 0, microsecond = 0\<rparr>,
       end_dt = \<lparr>year = 2026, month = 1, day = 5, hour = 16, minute = 0,
                  second = 0, microsecond = 0\<rparr>,
       all_day = False,
       raw = ''T, 1:00 PM to 2:00 PM, 3:00 PM to 4:00 PM, Monday, January 5, 2026''\<rparr>)"
  by code_simp

text \<open>
  C4 (amended): when the segments after the title are \<open>pre\<close>, then a date marker \<open>d\<close> (a
  segment that starts with a weekday name and is neither a time range nor an all-day
  segment), then \<open>post\<close>, and no segment of \<open>pre\<close> is a date marker, the scan stops at \<open>d\<close>:
  the time range is the last time-range segment of \<open>pre\<close>, the all-day flag is set when
  some segment of \<open>pre\<close> is an all-day segment and not a time range, and the date string is
  \<open>d\<close> with the next two segments (or the next one, or none). Nothing else of \<open>post\<close> is
  read.
\<close>

theorem scan_last_time_part:
  assumes "list_all (\<lambda>p. \<not> is_date_part p) pre" and "is_date_part d"
  shows "scan (pre @ d # post) tp ad =
           (if filter is_time_part pre = [] then tp
            else Some (last (filter is_time_part pre)),
            ad \<or> list_ex (\<lambda>p. \<not> is_time_part p \<and> is_all_day_part p) pre,
            Some (case post of
                    a # b # _ \<Rightarrow> d @ '', '' @ a @ '', '' @ b
                  | [a] \<Rightarrow> d @ '', '' @ a
                  | [] \<Rightarrow> d))"
  using assms
proof (induction pre arbitrary: tp ad)
  case Nil
  then show ?case by (simp add: is_date_part_def)
next
  case (Cons p pre)
  then show ?case
    by (cases "is_time_part p"; cases "is_all_day_part p") (auto simp: is_date_part_def)
qed

theorem scan_last_time_part_witness:
  "list_all (\<lambda>p. \<not> is_date_part p)
     [''1:00 PM to 2:00 PM'', ''All Day'', ''3:00 PM to 4:00 PM''] \<and>
   is_date_part ''Monday'' \<and>
   scan ([''1:00 PM to 2:00 PM'', ''All Day'', ''3:00 PM to 4:00 PM''] @
         ''Monday'' # [''January 5'', ''2026'', ''Room 1'', ''Tuesday'']) None False =
     (Some ''3:00 PM to 4:00 PM'', True, Some ''Monday, January 5, 2026'')"
proof -
  have h1: "list_all (\<lambda>p. \<not> is_date_part p)
              [''1:00 PM to 2:00 PM'', ''All Day'', ''3:00 PM to 4:00 PM'']"
    by code_simp
  have h2: "is_date_part ''Monday''"
    by code_simp
  have e: "(if filter is_time_part
                 [''1:00 PM to 2:00 PM'', ''All Day'', ''3:00 PM to 4:00 PM''] = []
            then None
            else Some (last (filter is_time_part
                   [''1:00 PM to 2:00 PM'', ''All Day'', ''3:00 PM to 4:00 PM''])),
            False \<or> list_ex (\<lambda>p. \<not> is_time_part p \<and> is_all_day_part p)
                      [''1:00 PM to 2:00 PM'', ''All Day'', ''3:00 PM to 4:00 PM''],
            Some (case [''January 5'', ''2026'', ''Room 1'', ''Tuesday''] of
                    a # b # _ \<Rightarrow> ''Monday'' @ '', '' @ a @ '', '' @ b
                  | [a] \<Rightarrow> ''Monday'' @ '', '' @ a
                  | [] \<Rightarrow> ''Monday'')) =
           (Some ''3:00 PM to 4:00 PM'', True, Some ''Monday, January 5, 2026'')"
    by code_simp
  show ?thesis
    using h1 h2 scan_last_time_part [OF h1 h2, of "[''January 5'', ''2026'', ''Room 1'', ''Tuesday'']" None False]
    unfolding e by blast
qed

section \<open>Properties of the collector\<close>

lemma loop_append:
  "deduplicate_loop items seen (a @ b) = a @ deduplicate_loop items seen b"
  by (induction items seen b rule: deduplicate_loop.induct) (simp_all add: Let_def)

lemma loop_accept:
  "r \<noteq> [] \<Longrightarrow> r \<notin> seen \<Longrightarrow> 5 < length r \<Longrightarrow> entry = Some r \<Longrightarrow>
   deduplicate_loop (Dict entry # rest) seen [] = r # deduplicate_loop rest (insert r seen) []"
  using loop_append [of rest "insert r seen" "[r]" "[]"] by simp

lemma loop_set:
  "set (deduplicate_loop items seen []) =
     {s \<in> set (raw_values items). 5 < length s \<and> s \<notin> seen}"
proof (induction items arbitrary: seen)
  case Nil
  then show ?case by simp
next
  case (Cons it items)
  show ?case
  proof (cases it)
    case NotDict
    then show ?thesis using Cons by simp
  next
    case (Dict entry)
    show ?thesis
    proof (cases entry)
      case None
      then show ?thesis using Dict Cons by auto
    next
      case (Some r)
      show ?thesis
      proof (cases "r \<noteq> [] \<and> r \<notin> seen \<and> 5 < length r")
        case True
        then have "deduplicate_loop (it # items) seen [] =
                     r # deduplicate_loop items (insert r seen) []"
          using loop_accept Dict Some by simp
        then show ?thesis using True Dict Some Cons [of "insert r seen"] by auto
      next
        case False
        then have "deduplicate_loop (it # items) seen [] = deduplicate_loop items seen []"
          using Dict Some by auto
        then show ?thesis using False Dict Some Cons [of seen] by auto
      qed
    qed
  qed
qed

lemma loop_distinct: "distinct (deduplicate_loop items seen [])"
proof (induction items arbitrary: seen)
  case Nil
  then show ?case by simp
next
  case (Cons it items)
  show ?case
  proof (cases it)
    case NotDict
    then show ?thesis using Cons by simp
  next
    case (Dict entry)
    show ?thesis
    proof (cases "\<exists>r. entry = Some r \<and> r \<noteq> [] \<and> r \<notin> seen \<and> 5 < length r")
      case True
      then obtain r where r: "entry = Some r" "r \<noteq> []" "r \<notin> seen" "5 < length r"
        by blast
      then have "deduplicate_loop (it # items) seen [] =
                   r # deduplicate_loop items (insert r seen) []"
        using loop_accept Dict by simp
      moreover have "r \<notin> set (deduplicate_loop items (insert r seen) [])"
        by (simp add: loop_set)
      ultimately show ?thesis using Cons [of "insert r seen"] by simp
    next
      case False
      then have "deduplicate_loop (it # items) seen [] = deduplicate_loop items seen []"
        using Dict by (auto split: option.splits)
      then show ?thesis using Cons [of seen] by simp
    qed
  qed
qed

lemma first_index_Cons:
  "first_index a (r # xs) = (if a = r then 0 else Suc (first_index a xs))"
  by (simp add: first_index_def)

lemma sorted_shift:
  assumes "sorted_wrt (\<lambda>a b. first_index a xs < first_index b xs) out" and "r \<notin> set out"
  shows "sorted_wrt (\<lambda>a b. first_index a (r # xs) < first_index b (r # xs)) out"
proof (rule sorted_wrt_mono_rel [OF _ assms(1)])
  fix x y
  assume "x \<in> set out" "y \<in> set out" "first_index x xs < first_index y xs"
  then show "first_index x (r # xs) < first_index y (r # xs)"
    using assms(2) by (auto simp: first_index_Cons)
qed

lemma loop_sorted:
  "sorted_wrt (\<lambda>a b. first_index a (raw_values items) < first_index b (raw_values items))
     (deduplicate_loop items seen [])"
proof (induction items arbitrary: seen)
  case Nil
  then show ?case by simp
next
  case (Cons it items)
  show ?case
  proof (cases it)
    case NotDict
    then show ?thesis using Cons by simp
  next
    case (Dict entry)
    define r where "r = (case entry of Some s \<Rightarrow> s | None \<Rightarrow> [])"
    have rv: "raw_values (it # items) = r # raw_values items"
      using Dict by (simp add: r_def)
    show ?thesis
    proof (cases "r \<noteq> [] \<and> r \<notin> seen \<and> 5 < length r")
      case True
      then have e: "entry = Some r" by (auto simp: r_def split: option.splits)
      have eq: "deduplicate_loop (it # items) seen [] =
                  r # deduplicate_loop items (insert r seen) []"
        using loop_accept True Dict e by simp
      have nin: "r \<notin> set (deduplicate_loop items (insert r seen) [])"
        by (simp add: loop_set)
      have "sorted_wrt (\<lambda>a b. first_index a (r # raw_values items)
                             < first_index b (r # raw_values items))
              (deduplicate_loop items (insert r seen) [])"
        using sorted_shift [OF Cons [of "insert r seen"] nin] .
      moreover have "\<forall>b \<in> set (deduplicate_loop items (insert r seen) []).
          first_index r (r # raw_values items) < first_index b (r # raw_values items)"
        using nin by (auto simp: first_index_Cons)
      ultimately show ?thesis unfolding eq rv by simp
    next
      case False
      then have eq: "deduplicate_loop (it # items) seen [] = deduplicate_loop items seen []"
        using Dict by (auto simp: r_def Let_def)
      have nin: "r \<notin> set (deduplicate_loop items seen [])"
        using False by (auto simp: loop_set)
      show ?thesis unfolding eq rv using sorted_shift [OF Cons [of seen] nin] .
    qed
  qed
qed

subsection \<open>C3: the output of the collector\<close>

text \<open>
  C3: for every sequence of scraped items, with \<open>raw_values\<close> its raw text fragments, the
  output of the deduplication loop has no duplicates, consists of exactly the fragments
  longer than 5 characters, lists them in the order of their first occurrence among the
  fragments, and so holds no fragment of length 5 or less.
\<close>

theorem deduplicate_first_occurrences:
  "distinct (deduplicate items) \<and>
   set (deduplicate items) = {s \<in> set (raw_values items). 5 < length s} \<and>
   sorted_wrt (\<lambda>a b. first_index a (raw_values items) < first_index b (raw_values items))
     (deduplicate items) \<and>
   list_all (\<lambda>s. \<not> length s \<le> 5) (deduplicate items)"
  unfolding deduplicate_def
  using loop_distinct [of items "{}"] loop_set [of items "{}"] loop_sorted [of items "{}"]
  by (auto simp: list_all_iff)

section \<open>Properties of \<open>events_to_ical\<close>\<close>

lemma vevents_rel:
  "list_all2 (\<lambda>a b. a = b \<or> (startswith a ''DTSTAMP:'' \<and> startswith b ''DTSTAMP:''))
     (vevents md5 c1 k1 evs) (vevents md5 c2 k2 evs)"
proof (induction evs arbitrary: k1 k2)
  case Nil
  then show ?case by simp
next
  case (Cons e evs)
  have "list_all2 (\<lambda>a b. a = b \<or> (startswith a ''DTSTAMP:'' \<and> startswith b ''DTSTAMP:''))
          (vevent md5 (c1 k1) e) (vevent md5 (c2 k2) e)"
    by (simp add: vevent_def dtstamp_line_def startswith_def)
  then show ?case using Cons by (simp add: list_all2_appendI)
qed

subsection \<open>C8: the clock only reaches the DTSTAMP lines\<close>

text \<open>
  C8: for every list of events and any two clocks, the two outputs of \<open>events_to_ical\<close> are
  the CRLF-joined lists of lines \<open>ical_lines\<close>, which have the same length and agree line
  by line except where both lines are \<open>DTSTAMP\<close> lines; and the block of one event is the
  same for any two clock readings once its \<open>DTSTAMP\<close> line (the third) is set aside, so the
  UID, DTSTART, DTEND and SUMMARY lines depend on the event alone.
\<close>

theorem events_to_ical_deterministic:
  "events_to_ical md5 c1 evs = join CRLF (ical_lines md5 c1 evs) \<and>
   events_to_ical md5 c2 evs = join CRLF (ical_lines md5 c2 evs) \<and>
   list_all2 (\<lambda>a b. a = b \<or> (startswith a ''DTSTAMP:'' \<and> startswith b ''DTSTAMP:''))
     (ical_lines md5 c1 evs) (ical_lines md5 c2 evs) \<and>
   (vevent md5 now1 e) [2 := x] = (vevent md5 now2 e) [2 := x]"
  unfolding events_to_ical_def ical_lines_def
  by (simp add: list_all2_appendI vevents_rel) (simp add: vevent_def)

section \<open>Properties of \<open>post_to_url\<close>\<close>

subsection \<open>C9: a missing certificate file ends the delivery before any network effect\<close>




section \<open>Properties of \<open>events_to_json\<close>\<close>

subsection \<open>Strings and numbers are read back\<close>












lemma foldl_digits_append:
  "foldl (\<lambda>a c. 10 * a + digit_val c) a0 (xs @ [c]) =
     10 * foldl (\<lambda>a c. 10 * a + digit_val c) a0 xs + digit_val c"
  by simp







lemma weight_pos: "0 < weight v"
  by (cases v) simp_all












subsection \<open>Lists, dicts and whole values are read back\<close>











subsection \<open>The length of the text bounds the scanner calls\<close>






subsection \<open>C7: decoding the output of \<open>events_to_json\<close>\<close>


end
